theory Spec2Isabelle
  imports Main
begin

section \<open>The layout type model of \<^verbatim>\<open>fields.py\<close>\<close>

text \<open>
  \<^verbatim>\<open>fields.py\<close> defines a base class \<^verbatim>\<open>Type\<close> and eight direct subclasses. An
  object of a subclass carries \<^verbatim>\<open>total_size\<close> (set by \<^verbatim>\<open>Type.__init__\<close>) and the
  attributes its own \<^verbatim>\<open>__init__\<close> sets. The eight subclasses are the constructors of
  one datatype; sizes and counts are Python integers (\<open>int\<close>), names are strings.

  \<^item> \<^verbatim>\<open>Void.__init__\<close> always passes \<^verbatim>\<open>0\<close> to the base initializer, so a \<open>Void\<close> has
    no field and its size is \<open>0\<close>.
  \<^item> \<^verbatim>\<open>Function.__eq__\<close> reads \<^verbatim>\<open>total_size\<close> only, and the assignment
    \<^verbatim>\<open>self.type = type_\<close> of \<^verbatim>\<open>Function.__init__\<close> stands behind a call that always
    raises (see \<open>Function_init\<close>), so a \<open>Function\<close> holds its size alone.

  The base class itself is not a constructor: the environment a dump is loaded in
  (\<^verbatim>\<open>load_globals\<close> of the tests) offers the subclasses only.
\<close>

datatype ctype =
    Void
  | Bitfield int
  | Scalar int string
  | StructField int string
  | UnionField int string
  | Function int
  | Pointer int ctype
  | Array int int ctype

text \<open>The attribute \<^verbatim>\<open>total_size\<close>, which every object has.\<close>

fun total_size :: "ctype \<Rightarrow> int" where
  "total_size Void = 0"
| "total_size (Bitfield ts) = ts"
| "total_size (Scalar ts ty) = ts"
| "total_size (StructField ts ty) = ts"
| "total_size (UnionField ts ty) = ts"
| "total_size (Function ts) = ts"
| "total_size (Pointer ts p) = ts"
| "total_size (Array ts n t) = ts"

text \<open>The class of an object (what \<^verbatim>\<open>isinstance\<close> tests).\<close>

datatype variant =
  VoidC | BitfieldC | ScalarC | StructFieldC | UnionFieldC | FunctionC | PointerC | ArrayC

fun variant_of :: "ctype \<Rightarrow> variant" where
  "variant_of Void = VoidC"
| "variant_of (Bitfield ts) = BitfieldC"
| "variant_of (Scalar ts ty) = ScalarC"
| "variant_of (StructField ts ty) = StructFieldC"
| "variant_of (UnionField ts ty) = UnionFieldC"
| "variant_of (Function ts) = FunctionC"
| "variant_of (Pointer ts p) = PointerC"
| "variant_of (Array ts n t) = ArrayC"

subsection \<open>Calls and their failures\<close>

text \<open>
  A value passed as a positional argument: an integer, a string, a boolean, \<^verbatim>\<open>None\<close>
  or a type object.
\<close>

datatype pyval = PInt int | PStr string | PBool bool | PNone | PType ctype

datatype pyerror = TypeError

text \<open>
  An initializer is modelled with its declared parameters, typed as the data model types
  them, followed by \<open>surplus\<close>: the positional arguments of the call beyond the declared
  ones. Python binds positional arguments by count and raises \<^verbatim>\<open>TypeError\<close> when any
  is left over, before the body runs.

  \<^verbatim>\<open>Type.__init__(self, total_size)\<close> stores its one argument.
\<close>

definition Type_init :: "int \<Rightarrow> pyval list \<Rightarrow> pyerror + int" where
  "Type_init total_size' surplus =
     (if surplus \<noteq> [] then Inl TypeError else Inr total_size')"

definition Void_init :: "pyval list \<Rightarrow> pyerror + ctype" where
  "Void_init surplus =
     (if surplus \<noteq> [] then Inl TypeError
      else case Type_init 0 [] of Inl e \<Rightarrow> Inl e | Inr ts \<Rightarrow> Inr Void)"

definition Bitfield_init :: "int \<Rightarrow> pyval list \<Rightarrow> pyerror + ctype" where
  "Bitfield_init total_size' surplus =
     (if surplus \<noteq> [] then Inl TypeError
      else case Type_init total_size' [] of Inl e \<Rightarrow> Inl e | Inr ts \<Rightarrow> Inr (Bitfield ts))"

definition Scalar_init :: "int \<Rightarrow> string \<Rightarrow> pyval list \<Rightarrow> pyerror + ctype" where
  "Scalar_init total_size' type' surplus =
     (if surplus \<noteq> [] then Inl TypeError
      else case Type_init total_size' [] of Inl e \<Rightarrow> Inl e | Inr ts \<Rightarrow> Inr (Scalar ts type'))"

definition StructField_init :: "int \<Rightarrow> string \<Rightarrow> pyval list \<Rightarrow> pyerror + ctype" where
  "StructField_init total_size' type' surplus =
     (if surplus \<noteq> [] then Inl TypeError
      else case Type_init total_size' [] of
             Inl e \<Rightarrow> Inl e | Inr ts \<Rightarrow> Inr (StructField ts type'))"

definition UnionField_init :: "int \<Rightarrow> string \<Rightarrow> pyval list \<Rightarrow> pyerror + ctype" where
  "UnionField_init total_size' type' surplus =
     (if surplus \<noteq> [] then Inl TypeError
      else case Type_init total_size' [] of
             Inl e \<Rightarrow> Inl e | Inr ts \<Rightarrow> Inr (UnionField ts type'))"

text \<open>
  \<^verbatim>\<open>Function.__init__(self, total_size, type_)\<close> calls the base initializer with both
  of its arguments: \<^verbatim>\<open>super(Function, self).__init__(total_size, type_)\<close>.
\<close>

definition Function_init :: "int \<Rightarrow> pyval \<Rightarrow> pyval list \<Rightarrow> pyerror + ctype" where
  "Function_init total_size' type' surplus =
     (if surplus \<noteq> [] then Inl TypeError
      else case Type_init total_size' [type'] of
             Inl e \<Rightarrow> Inl e | Inr ts \<Rightarrow> Inr (Function ts))"

text \<open>
  The call \<^verbatim>\<open>Function(*args)\<close> for any list of positional arguments. Fewer than two
  arguments do not bind to \<^verbatim>\<open>(total_size, type_)\<close>, which is a \<^verbatim>\<open>TypeError\<close>. With two
  or more, \<open>Function_init\<close> runs on the first two and the rest. A first argument that
  is not an integer is outside the data model; Python raises \<^verbatim>\<open>TypeError\<close> for it as
  well, since \<^verbatim>\<open>Type.__init__\<close> rejects the call by the number of its arguments.
\<close>

fun Function_new :: "pyval list \<Rightarrow> pyerror + ctype" where
  "Function_new (PInt total_size' # type' # surplus) = Function_init total_size' type' surplus"
| "Function_new args = Inl TypeError"

definition Pointer_init :: "int \<Rightarrow> ctype \<Rightarrow> pyval list \<Rightarrow> pyerror + ctype" where
  "Pointer_init total_size' pointed_type surplus =
     (if surplus \<noteq> [] then Inl TypeError
      else case Type_init total_size' [] of
             Inl e \<Rightarrow> Inl e | Inr ts \<Rightarrow> Inr (Pointer ts pointed_type))"

definition Array_init :: "int \<Rightarrow> int \<Rightarrow> ctype \<Rightarrow> pyval list \<Rightarrow> pyerror + ctype" where
  "Array_init total_size' num_elem elem_type surplus =
     (if surplus \<noteq> [] then Inl TypeError
      else case Type_init total_size' [] of
             Inl e \<Rightarrow> Inl e | Inr ts \<Rightarrow> Inr (Array ts num_elem elem_type))"

subsection \<open>Equality\<close>

text \<open>
  An \<^verbatim>\<open>__eq__\<close> method returns \<^verbatim>\<open>NotImplemented\<close> or a boolean. Each method is
  modelled on the attributes of \<^verbatim>\<open>self\<close> and the object \<^verbatim>\<open>other\<close>.

  \<^verbatim>\<open>Type.__eq__\<close>: every \<open>ctype\<close> is an instance of \<^verbatim>\<open>Type\<close>, so the \<^verbatim>\<open>isinstance\<close>
  test passes and the sizes are compared.
\<close>

datatype eq_result = NotImplemented | Result bool

definition Type_eq :: "int \<Rightarrow> ctype \<Rightarrow> eq_result" where
  "Type_eq self_total_size other = Result (self_total_size = total_size other)"

definition Void_eq :: "ctype \<Rightarrow> eq_result" where
  "Void_eq other = (case other of Void \<Rightarrow> Type_eq 0 other | _ \<Rightarrow> NotImplemented)"

definition Bitfield_eq :: "int \<Rightarrow> ctype \<Rightarrow> eq_result" where
  "Bitfield_eq self_total_size other =
     (case other of Bitfield ts \<Rightarrow> Type_eq self_total_size other | _ \<Rightarrow> NotImplemented)"

text \<open>
  \<^verbatim>\<open>Scalar.__eq__\<close> first prints both objects; the output is not part of the result
  and is left out. \<^verbatim>\<open>x and y\<close> is \<^verbatim>\<open>x\<close> when \<^verbatim>\<open>x\<close> is false and \<^verbatim>\<open>y\<close> otherwise.
\<close>

definition Scalar_eq :: "int \<Rightarrow> string \<Rightarrow> ctype \<Rightarrow> eq_result" where
  "Scalar_eq self_total_size self_type other =
     (case other of
        Scalar ts ty \<Rightarrow> if self_type = ty then Type_eq self_total_size other else Result False
      | _ \<Rightarrow> NotImplemented)"

definition StructField_eq :: "int \<Rightarrow> string \<Rightarrow> ctype \<Rightarrow> eq_result" where
  "StructField_eq self_total_size self_type other =
     (case other of
        StructField ts ty \<Rightarrow>
          if self_type = ty then Type_eq self_total_size other else Result False
      | _ \<Rightarrow> NotImplemented)"

definition UnionField_eq :: "int \<Rightarrow> string \<Rightarrow> ctype \<Rightarrow> eq_result" where
  "UnionField_eq self_total_size self_type other =
     (case other of
        UnionField ts ty \<Rightarrow>
          if self_type = ty then Type_eq self_total_size other else Result False
      | _ \<Rightarrow> NotImplemented)"

definition Function_eq :: "int \<Rightarrow> ctype \<Rightarrow> eq_result" where
  "Function_eq self_total_size other =
     (case other of Function ts \<Rightarrow> Type_eq self_total_size other | _ \<Rightarrow> NotImplemented)"

text \<open>
  \<^verbatim>\<open>Pointer.__eq__\<close> and \<^verbatim>\<open>Array.__eq__\<close> compare the owned types with \<^verbatim>\<open>==\<close>, so
  they are defined together with the operator.

  \<open>dunder_eq a b\<close> is the method call \<^verbatim>\<open>a.__eq__(b)\<close>, dispatched on the class of \<open>a\<close>.

  \<open>py_eq a b\<close> is the expression \<^verbatim>\<open>a == b\<close>: Python calls \<^verbatim>\<open>a.__eq__(b)\<close>, on
  \<^verbatim>\<open>NotImplemented\<close> the reflected \<^verbatim>\<open>b.__eq__(a)\<close>, and when both decline it compares
  identities. (No class here is a subclass of another one of the eight, so the
  reflected method is never tried first.) Both methods decline only for objects of
  two different classes, which are two different objects: the last result is false.
\<close>

function Pointer_eq :: "int \<Rightarrow> ctype \<Rightarrow> ctype \<Rightarrow> eq_result"
  and Array_eq :: "int \<Rightarrow> int \<Rightarrow> ctype \<Rightarrow> ctype \<Rightarrow> eq_result"
  and dunder_eq :: "ctype \<Rightarrow> ctype \<Rightarrow> eq_result"
  and py_eq :: "ctype \<Rightarrow> ctype \<Rightarrow> bool"
where
  "Pointer_eq self_total_size self_pointed_type other =
     (case other of
        Pointer ts p \<Rightarrow>
          if py_eq self_pointed_type p then Type_eq self_total_size other else Result False
      | _ \<Rightarrow> NotImplemented)"
| "Array_eq self_total_size self_num_elem self_elem_type other =
     (case other of
        Array ts n t \<Rightarrow>
          if self_num_elem = n
          then (if py_eq self_elem_type t then Type_eq self_total_size other
                else Result False)
          else Result False
      | _ \<Rightarrow> NotImplemented)"
| "dunder_eq a b =
     (case a of
        Void \<Rightarrow> Void_eq b
      | Bitfield ts \<Rightarrow> Bitfield_eq ts b
      | Scalar ts ty \<Rightarrow> Scalar_eq ts ty b
      | StructField ts ty \<Rightarrow> StructField_eq ts ty b
      | UnionField ts ty \<Rightarrow> UnionField_eq ts ty b
      | Function ts \<Rightarrow> Function_eq ts b
      | Pointer ts p \<Rightarrow> Pointer_eq ts p b
      | Array ts n t \<Rightarrow> Array_eq ts n t b)"
| "py_eq a b =
     (case dunder_eq a b of
        Result r \<Rightarrow> r
      | NotImplemented \<Rightarrow>
          (case dunder_eq b a of Result r \<Rightarrow> r | NotImplemented \<Rightarrow> False))"
  by pat_completeness auto

text \<open>
  The comparison ends because every \<^verbatim>\<open>==\<close> inside a method is on types owned by the
  two objects: the joint size of the two operands decreases from one \<^verbatim>\<open>==\<close> to the
  next, and swapping the operands for the reflected call keeps it.
\<close>

termination
  by (relation "measure (\<lambda>x. case x of
        Inl (Inl (ts, p, other)) \<Rightarrow> 3 * (size p + 1 + size other)
      | Inl (Inr (ts, n, t, other)) \<Rightarrow> 3 * (size t + 1 + size other)
      | Inr (Inl (a, b)) \<Rightarrow> 3 * (size a + size b) + 1
      | Inr (Inr (a, b)) \<Rightarrow> 3 * (size a + size b) + 2)")
     auto

text \<open>
  Which attributes a variant has besides its size, and when those of two objects of
  one variant agree. An owned type (the pointee of a \<open>Pointer\<close>, the element type
  of an \<open>Array\<close>) agrees with another when the two are equal under \<^verbatim>\<open>==\<close>. Objects
  of two different variants have no attributes to compare.
\<close>

fun attributes_agree :: "ctype \<Rightarrow> ctype \<Rightarrow> bool" where
  "attributes_agree Void Void = True"
| "attributes_agree (Bitfield ts) (Bitfield ts') = True"
| "attributes_agree (Scalar ts ty) (Scalar ts' ty') = (ty = ty')"
| "attributes_agree (StructField ts ty) (StructField ts' ty') = (ty = ty')"
| "attributes_agree (UnionField ts ty) (UnionField ts' ty') = (ty = ty')"
| "attributes_agree (Function ts) (Function ts') = True"
| "attributes_agree (Pointer ts p) (Pointer ts' p') = py_eq p p'"
| "attributes_agree (Array ts n t) (Array ts' n' t') = (n = n' \<and> py_eq t t')"
| "attributes_agree a b = False"

section \<open>The aggregate record and the table of a dump\<close>

text \<open>
  The tests import a class \<^verbatim>\<open>Struct\<close> from the fields module and read the table
  \<^verbatim>\<open>structs\<close> that a dump builds; \<^verbatim>\<open>fields.py\<close> defines no such class, and the dump
  is written by the compiler plugin, which is not among the sources. The definitions of
  this section are taken from the specification.
\<close>

text \<open>
  Modelled from the spec: the aggregate record (\<^verbatim>\<open>Struct\<close>, missing from
  \<^verbatim>\<open>fields.py\<close>). It has a total size in bits and the fields in declaration order,
  each a name with its offset in bits and its type.
\<close>

record Layout =
  total_size_bits :: nat
  struct_fields :: "(string \<times> nat \<times> ctype) list"

text \<open>
  Modelled from the spec: the layout table (the dictionary \<^verbatim>\<open>structs\<close> a dump
  builds), from aggregate names to records, in the order of the dump.
\<close>

type_synonym layout_table = "(string \<times> Layout) list"

text \<open>
  Modelled from the spec: an ordered mapping keyed by name, as the tests read it (the
  table and the fields of a record answer \<^verbatim>\<open>keys()\<close>, \<^verbatim>\<open>in\<close> and indexing by name, as
  Python dictionaries do). Storing under a name that is present replaces the value and
  keeps the place; a new name goes to the end.
\<close>

fun dict_put :: "string \<Rightarrow> 'v \<Rightarrow> (string \<times> 'v) list \<Rightarrow> (string \<times> 'v) list" where
  "dict_put k v [] = [(k, v)]"
| "dict_put k v ((k', v') # rest) =
     (if k = k' then (k, v) # rest else (k', v') # dict_put k v rest)"

text \<open>Modelled from the spec: the ordered mapping that holds the given entries, stored in order.\<close>

definition dict_of :: "(string \<times> 'v) list \<Rightarrow> (string \<times> 'v) list" where
  "dict_of entries = foldl (\<lambda>d (k, v). dict_put k v d) [] entries"

text \<open>
  Modelled from the spec: building the aggregate record (the constructor \<^verbatim>\<open>Struct\<close>,
  missing from \<^verbatim>\<open>fields.py\<close>) from a total size and the fields in declaration order;
  its \<^verbatim>\<open>fields\<close> are the ordered mapping of them.
\<close>

definition Struct :: "nat \<Rightarrow> (string \<times> nat \<times> ctype) list \<Rightarrow> Layout" where
  "Struct total_size' declared =
     \<lparr>total_size_bits = total_size', struct_fields = dict_of declared\<rparr>"

text \<open>
  Modelled from the spec: looking a field up by its name in a record, and a record by
  its name in the table (\<^verbatim>\<open>structs["x"].fields["y"]\<close> in the tests).
\<close>

definition field_lookup :: "Layout \<Rightarrow> string \<Rightarrow> (nat \<times> ctype) option" where
  "field_lookup l name = map_of (struct_fields l) name"

definition table_lookup :: "layout_table \<Rightarrow> string \<Rightarrow> Layout option" where
  "table_lookup tbl name = map_of tbl name"

text \<open>Modelled from the spec: the aggregate names a table has an entry for.\<close>

definition table_keys :: "layout_table \<Rightarrow> string set" where
  "table_keys tbl = set (map fst tbl)"

text \<open>
  Modelled from the spec: what a translation unit declares, as far as the naming rules
  of the table go (the compiler plugin, missing from the sources, reads it off the
  compiler's trees): a struct or union with a tag, \<^verbatim>\<open>struct s {...}\<close>; an anonymous one
  introduced by a typedef, \<^verbatim>\<open>typedef struct {...} t;\<close>; a typedef alias of a tagged
  one, \<^verbatim>\<open>typedef struct s s_t;\<close>.
\<close>

datatype decl =
    TaggedAggregate string Layout
  | AnonymousTypedef string Layout
  | TypedefAlias string string

text \<open>
  Modelled from the spec: the naming rule. A tagged aggregate is keyed by its tag, an
  anonymous one by its typedef name, and an alias adds no entry. The record of an entry
  is built from the declared size and fields.
\<close>

fun table_entries :: "decl \<Rightarrow> layout_table" where
  "table_entries (TaggedAggregate tag l) = [(tag, Struct (total_size_bits l) (struct_fields l))]"
| "table_entries (AnonymousTypedef name l) =
     [(name, Struct (total_size_bits l) (struct_fields l))]"
| "table_entries (TypedefAlias alias tag) = []"

text \<open>
  Modelled from the spec: the table of a dump without a target, the mapping that holds
  every aggregate the translation unit defines, in the order of their definitions.
\<close>

definition dump_all :: "decl list \<Rightarrow> layout_table" where
  "dump_all tu = dict_of (concat (map table_entries tu))"

text \<open>Modelled from the spec: the names of the aggregates a translation unit defines.\<close>

definition defined_aggregates :: "decl list \<Rightarrow> string set" where
  "defined_aggregates tu =
     {name. \<exists>l. TaggedAggregate name l \<in> set tu \<or> AnonymousTypedef name l \<in> set tu}"

text \<open>
  Modelled from the spec: the aggregates a type refers to by name, directly or through
  pointers and arrays, and those the fields of a record refer to.
\<close>

fun referenced_names :: "ctype \<Rightarrow> string list" where
  "referenced_names (StructField ts name) = [name]"
| "referenced_names (UnionField ts name) = [name]"
| "referenced_names (Pointer ts p) = referenced_names p"
| "referenced_names (Array ts n t) = referenced_names t"
| "referenced_names other = []"

definition layout_references :: "Layout \<Rightarrow> string list" where
  "layout_references l = concat (map (\<lambda>(name, offset, ty). referenced_names ty) (struct_fields l))"

text \<open>
  Modelled from the spec: the relation ``the aggregate \<open>n\<close> of the table has a field
  that refers to \<open>m\<close>''.
\<close>

definition references :: "layout_table \<Rightarrow> (string \<times> string) set" where
  "references tbl = {(n, m). \<exists>l. map_of tbl n = Some l \<and> m \<in> set (layout_references l)}"

text \<open>
  Modelled from the spec: the target and the aggregates it refers to, transitively
  (the selection the plugin makes for a target, missing from the sources), as a
  work list: \<open>todo\<close> holds the names to visit and \<open>seen\<close> the aggregates kept so far.
  A name that is already kept or that the table does not define is dropped.
\<close>

function necessary :: "layout_table \<Rightarrow> string list \<Rightarrow> string list \<Rightarrow> string list" where
  "necessary tbl [] seen = seen"
| "necessary tbl (n # todo) seen =
     (if n \<in> set seen then necessary tbl todo seen
      else case map_of tbl n of
             None \<Rightarrow> necessary tbl todo seen
           | Some l \<Rightarrow> necessary tbl (layout_references l @ todo) (n # seen))"
  by pat_completeness auto

text \<open>
  Every visit keeps one more aggregate of the table, and every other step shortens the
  work list.
\<close>

termination
proof (relation "measures [\<lambda>(tbl, todo, seen). card (set (map fst tbl) - set seen),
                           \<lambda>(tbl, todo, seen). length todo]", goal_cases)
  case 1
  show ?case by simp
next
  case (2 tbl n todo seen)
  show ?case by simp
next
  case (3 tbl n todo seen)
  show ?case by simp
next
  case (4 tbl n todo seen l)
  then have "n \<in> set (map fst tbl)"
    by (metis map_of_eq_None_iff option.distinct(1) set_map)
  with 4 have "card (set (map fst tbl) - set (n # seen)) < card (set (map fst tbl) - set seen)"
    by (intro psubset_card_mono) auto
  then show ?case by simp
qed

declare necessary.simps [simp del]

text \<open>
  Modelled from the spec: the table that \<^verbatim>\<open>dump_struct_layout(struct_code, struct_name)\<close>
  of the tests returns. What the plugin dumps for a target is missing from the sources:
  the target and what it refers to, and nothing else. The call itself is in the sources:
  \<^verbatim>\<open>run_gcc\<close> hands the target to the plugin only \<^verbatim>\<open>if struct_name\<close>, so both \<^verbatim>\<open>None\<close>
  and the empty string ask for every aggregate.
\<close>

definition dump_struct_layout :: "decl list \<Rightarrow> string option \<Rightarrow> layout_table" where
  "dump_struct_layout struct_code struct_name =
     (case struct_name of
        None \<Rightarrow> dump_all struct_code
      | Some name \<Rightarrow>
          if name = [] then dump_all struct_code
          else filter (\<lambda>(key, l). key \<in> set (necessary (dump_all struct_code) [name] []))
                 (dump_all struct_code))"

text \<open>
  The invariant of the work list, for the proofs: \<open>S\<close> holds what is kept, the defined
  names still to visit, and every defined aggregate that one of its members outside
  \<open>seen\<close> refers to.
\<close>

definition covers :: "layout_table \<Rightarrow> string list \<Rightarrow> string list \<Rightarrow> string set \<Rightarrow> bool" where
  "covers tbl todo seen S \<longleftrightarrow>
     set seen \<subseteq> S
     \<and> (\<forall>n \<in> set todo. n \<in> table_keys tbl \<longrightarrow> n \<in> S)
     \<and> (\<forall>x y. x \<in> S \<longrightarrow> x \<notin> set seen \<longrightarrow> (x, y) \<in> references tbl \<longrightarrow>
            y \<in> table_keys tbl \<longrightarrow> y \<in> S)"

section \<open>Properties of the equality\<close>

lemmas leaf_eq_defs =
  Type_eq_def Void_eq_def Bitfield_eq_def Scalar_eq_def StructField_eq_def
  UnionField_eq_def Function_eq_def

text \<open>A method declines exactly when \<^verbatim>\<open>other\<close> is of another class.\<close>

lemma dunder_eq_NotImplemented:
  "dunder_eq a b = NotImplemented \<longleftrightarrow> variant_of a \<noteq> variant_of b"
  by (cases a; cases b) (simp_all add: leaf_eq_defs)

text \<open>\<^verbatim>\<open>a == b\<close> holds exactly for two equal values of the datatype.\<close>

lemma py_eq_iff: "py_eq a b \<longleftrightarrow> a = b"
proof (induction a arbitrary: b)
  case Void
  show ?case by (cases b) (simp_all add: leaf_eq_defs)
next
  case (Bitfield ts)
  show ?case by (cases b) (auto simp: leaf_eq_defs)
next
  case (Scalar ts ty)
  show ?case by (cases b) (auto simp: leaf_eq_defs)
next
  case (StructField ts ty)
  show ?case by (cases b) (auto simp: leaf_eq_defs)
next
  case (UnionField ts ty)
  show ?case by (cases b) (auto simp: leaf_eq_defs)
next
  case (Function ts)
  show ?case by (cases b) (auto simp: leaf_eq_defs)
next
  case (Pointer ts p)
  then show ?case by (cases b) (auto simp: leaf_eq_defs)
next
  case (Array ts n t)
  then show ?case by (cases b) (auto simp: leaf_eq_defs)
qed

text \<open>
  From here on \<^verbatim>\<open>==\<close> is rewritten by \<open>py_eq_iff\<close> instead of being unfolded.
\<close>

declare py_eq.simps [simp del]

text \<open>
  Claim C1. For every two type values \<open>a\<close> and \<open>b\<close>, \<^verbatim>\<open>a == b\<close> holds if and only if
  they are of the same variant, their variant-specific attributes agree (an owned
  pointee or element type being compared with \<^verbatim>\<open>==\<close> again) and their total sizes
  are equal. Two values of different variants are therefore never equal.
\<close>

theorem structural_equality_characterised:
  "py_eq a b \<longleftrightarrow>
     variant_of a = variant_of b \<and> attributes_agree a b \<and> total_size a = total_size b"
  by (cases a; cases b) (auto simp: py_eq_iff)

text \<open>
  Claim C4. \<^verbatim>\<open>==\<close> on type values is an equivalence relation: it is reflexive,
  symmetric and transitive.
\<close>

theorem structural_equality_equivalence:
  "py_eq a a \<and> (py_eq a b \<longrightarrow> py_eq b a) \<and> (py_eq a b \<and> py_eq b c \<longrightarrow> py_eq a c)"
  by (simp add: py_eq_iff)

text \<open>
  The three properties at an array of pointers to a self-referential aggregate, the
  premises evaluated from the methods.
\<close>

theorem structural_equality_equivalence_witness:
  "py_eq (Array 128 2 (Pointer 64 (StructField 96 ''node'')))
         (Array 128 2 (Pointer 64 (StructField 96 ''node'')))"
proof -
  have h: "py_eq (Array 128 2 (Pointer 64 (StructField 96 ''node'')))
                 (Array 128 2 (Pointer 64 (StructField 96 ''node'')))"
    by (simp add: py_eq.simps StructField_eq_def Type_eq_def)
  from h structural_equality_equivalence
         [of "Array 128 2 (Pointer 64 (StructField 96 ''node''))"
             "Array 128 2 (Pointer 64 (StructField 96 ''node''))"
             "Array 128 2 (Pointer 64 (StructField 96 ''node''))"]
  show ?thesis by blast
qed

text \<open>
  Claim C5. Two \<open>StructField\<close> values are equal under \<^verbatim>\<open>==\<close> if and only if the names
  they refer to and their total sizes are equal, and likewise two \<open>UnionField\<close>
  values. The methods \<open>StructField_eq\<close> and \<open>UnionField_eq\<close> read the name and the
  size and nothing else: they have no recursive call and no table of aggregates to
  look into, so comparing fields of self-referential aggregates ends.
\<close>

theorem field_reference_equality:
  "py_eq (StructField s1 n1) (StructField s2 n2) = (n1 = n2 \<and> s1 = s2)
   \<and> py_eq (UnionField s1 n1) (UnionField s2 n2) = (n1 = n2 \<and> s1 = s2)
   \<and> StructField_eq s1 n1 (StructField s2 n2) = Result (n1 = n2 \<and> s1 = s2)
   \<and> UnionField_eq s1 n1 (UnionField s2 n2) = Result (n1 = n2 \<and> s1 = s2)"
  by (auto simp: py_eq_iff StructField_eq_def UnionField_eq_def Type_eq_def)

section \<open>Properties of the constructors\<close>

text \<open>
  Claim C2, as the code has it. \<^verbatim>\<open>Array.__init__\<close> checks nothing: a call with the
  three declared arguments always succeeds and the object keeps the stated total size,
  whatever it is. The size of the object is the product of the element count and the
  element size exactly when the caller stated that product.
\<close>

theorem Array_init_stores_stated_size:
  "Array_init ts n t [] = Inr (Array ts n t)
   \<and> total_size (Array ts n t) = ts
   \<and> (total_size (Array ts n t) = n * total_size t \<longleftrightarrow> ts = n * total_size t)"
  by (simp add: Array_init_def Type_init_def)

text \<open>
  An array of two 32-bit elements with a stated total size of 7 bits is constructed
  without an error, and its size is not the product.
\<close>

theorem Array_init_no_InvalidShape:
  "Array_init 7 2 (Scalar 32 ''int'') [] = Inr (Array 7 2 (Scalar 32 ''int''))
   \<and> total_size (Array 7 2 (Scalar 32 ''int'')) \<noteq> 2 * total_size (Scalar 32 ''int'')"
  by (simp add: Array_init_def Type_init_def)

text \<open>
  Claim C3, at the call the tests make. \<^verbatim>\<open>Scalar(32, "int", True)\<close> passes a third
  argument for the signedness; \<^verbatim>\<open>Scalar.__init__\<close> declares \<^verbatim>\<open>total_size\<close> and
  \<^verbatim>\<open>type_\<close> only, so the call raises \<^verbatim>\<open>TypeError\<close> and no \<open>Scalar\<close> carries a
  signedness.
\<close>

theorem Scalar_init_rejects_is_signed:
  "Scalar_init 32 ''int'' [PBool True] = Inl TypeError"
  by (simp add: Scalar_init_def)

text \<open>
  Claim C10. Every call of the \<open>Function\<close> constructor raises \<^verbatim>\<open>TypeError\<close>: with the
  two declared arguments, because \<^verbatim>\<open>Function.__init__\<close> hands both to
  \<^verbatim>\<open>Type.__init__\<close>, which takes one; with any other argument list as well. So the
  constructor returns no \<open>Function\<close>, and an expression \<^verbatim>\<open>Pointer(ts, Function(...))\<close>
  raises before a \<open>Pointer\<close> is made.
\<close>

theorem Function_init_always_TypeError:
  "Function_init ts ty surplus = Inl TypeError
   \<and> Function_new args = Inl TypeError
   \<and> (case Function_new args of Inl e \<Rightarrow> Inl e | Inr f \<Rightarrow> Pointer_init ts' f []) = Inl TypeError"
proof -
  have init: "Function_init x y z = Inl TypeError" for x y z
    by (simp add: Function_init_def Type_init_def)
  have new: "Function_new args = Inl TypeError"
    by (cases args rule: Function_new.cases) (simp_all add: init)
  show ?thesis
    by (simp add: init new)
qed

section \<open>Properties of the table of a dump\<close>

subsection \<open>The work list computes what the target reaches\<close>

lemma map_of_Some_key: "map_of tbl n = Some l \<Longrightarrow> n \<in> table_keys tbl"
  unfolding table_keys_def by (metis map_of_eq_None_iff option.distinct(1) set_map)

lemma map_of_None_key: "map_of tbl n = None \<Longrightarrow> n \<notin> table_keys tbl"
  unfolding table_keys_def by (simp add: map_of_eq_None_iff)

lemma references_key: "(n, m) \<in> references tbl \<Longrightarrow> n \<in> table_keys tbl"
  unfolding references_def by (auto intro: map_of_Some_key)

lemma references_Some:
  "map_of tbl n = Some l \<Longrightarrow> (n, m) \<in> references tbl \<longleftrightarrow> m \<in> set (layout_references l)"
  unfolding references_def by simp

lemma necessary_skip_seen:
  "n \<in> set seen \<Longrightarrow> necessary tbl (n # todo) seen = necessary tbl todo seen"
  by (simp add: necessary.simps)

lemma necessary_skip_unknown:
  "map_of tbl n = None \<Longrightarrow> necessary tbl (n # todo) seen = necessary tbl todo seen"
  by (simp add: necessary.simps)

lemma necessary_visit:
  "n \<notin> set seen \<Longrightarrow> map_of tbl n = Some l \<Longrightarrow>
   necessary tbl (n # todo) seen = necessary tbl (layout_references l @ todo) (n # seen)"
  by (simp add: necessary.simps)

lemma necessary_sound:
  "k \<in> set (necessary tbl todo seen) \<Longrightarrow>
   k \<in> set seen \<or> (k \<in> table_keys tbl \<and> (\<exists>n \<in> set todo. (n, k) \<in> (references tbl)\<^sup>*))"
proof (induction tbl todo seen rule: necessary.induct)
  case (1 tbl seen)
  then show ?case by (simp add: necessary.simps)
next
  case (2 tbl n todo seen)
  show ?case
  proof (cases "n \<in> set seen")
    case True
    with 2(4) have "k \<in> set (necessary tbl todo seen)" by (simp add: necessary_skip_seen)
    from 2(1)[OF True this] show ?thesis by auto
  next
    case unseen: False
    show ?thesis
    proof (cases "map_of tbl n")
      case None
      with 2(4) have "k \<in> set (necessary tbl todo seen)" by (simp add: necessary_skip_unknown)
      from 2(2)[OF unseen None this] show ?thesis by auto
    next
      case (Some l)
      with unseen 2(4) have "k \<in> set (necessary tbl (layout_references l @ todo) (n # seen))"
        by (simp add: necessary_visit)
      from 2(3)[OF unseen Some this] consider "k = n" | "k \<in> set seen"
        | m where "k \<in> table_keys tbl" "m \<in> set (layout_references l)"
            "(m, k) \<in> (references tbl)\<^sup>*"
        | m where "k \<in> table_keys tbl" "m \<in> set todo" "(m, k) \<in> (references tbl)\<^sup>*"
        by auto
      then show ?thesis
      proof cases
        case 1
        have "n \<in> table_keys tbl" using Some by (rule map_of_Some_key)
        with 1 show ?thesis by auto
      next
        case 2
        then show ?thesis by simp
      next
        case 3
        from Some 3(2) have "(n, m) \<in> references tbl" by (simp add: references_Some)
        from this 3(3) have "(n, k) \<in> (references tbl)\<^sup>*"
          by (rule converse_rtrancl_into_rtrancl)
        with 3(1) show ?thesis by auto
      next
        case 4
        then show ?thesis by auto
      qed
    qed
  qed
qed

lemma covers_skip:
  assumes "covers tbl todo seen S" and "n \<in> set seen \<or> n \<notin> table_keys tbl"
  shows "covers tbl (n # todo) seen S"
  using assms unfolding covers_def by auto

lemma covers_visit:
  assumes c: "covers tbl (layout_references l @ todo) (n # seen) S"
    and l: "map_of tbl n = Some l"
  shows "covers tbl (n # todo) seen S"
proof -
  from c have seen: "set (n # seen) \<subseteq> S"
    and todo: "\<And>m. m \<in> set (layout_references l @ todo) \<Longrightarrow> m \<in> table_keys tbl \<Longrightarrow> m \<in> S"
    and closed: "\<And>x y. x \<in> S \<Longrightarrow> x \<notin> set (n # seen) \<Longrightarrow> (x, y) \<in> references tbl \<Longrightarrow>
            y \<in> table_keys tbl \<Longrightarrow> y \<in> S"
    unfolding covers_def by blast+
  have 1: "set seen \<subseteq> S" using seen by simp
  have 2: "m \<in> S" if "m \<in> set (n # todo)" "m \<in> table_keys tbl" for m
  proof (cases "m = n")
    case True
    with seen show ?thesis by simp
  next
    case False
    with that(1) have "m \<in> set (layout_references l @ todo)" by simp
    from todo[OF this that(2)] show ?thesis .
  qed
  have 3: "y \<in> S" if "x \<in> S" "x \<notin> set seen" "(x, y) \<in> references tbl" "y \<in> table_keys tbl"
    for x y
  proof (cases "x = n")
    case True
    with that(3) l have "y \<in> set (layout_references l)" by (simp add: references_Some)
    then have "y \<in> set (layout_references l @ todo)" by simp
    from todo[OF this that(4)] show ?thesis .
  next
    case False
    with that(2) have "x \<notin> set (n # seen)" by simp
    from closed[OF that(1) this that(3) that(4)] show ?thesis .
  qed
  show ?thesis unfolding covers_def using 1 2 3 by blast
qed

lemma necessary_covers: "covers tbl todo seen (set (necessary tbl todo seen))"
proof (induction tbl todo seen rule: necessary.induct)
  case (1 tbl seen)
  show ?case by (simp add: covers_def necessary.simps)
next
  case (2 tbl n todo seen)
  show ?case
  proof (cases "n \<in> set seen")
    case True
    from 2(1)[OF True] True show ?thesis
      by (simp add: necessary_skip_seen covers_skip)
  next
    case unseen: False
    show ?thesis
    proof (cases "map_of tbl n")
      case None
      from 2(2)[OF unseen None] map_of_None_key[OF None] show ?thesis
        by (simp add: necessary_skip_unknown[OF None] covers_skip)
    next
      case (Some l)
      from 2(3)[OF unseen Some] show ?thesis
        unfolding necessary_visit[OF unseen Some] using Some by (rule covers_visit)
    qed
  qed
qed

lemma necessary_reachable:
  "set (necessary tbl [name] []) = {k \<in> table_keys tbl. (name, k) \<in> (references tbl)\<^sup>*}"
proof (intro set_eqI iffI)
  fix k
  assume "k \<in> set (necessary tbl [name] [])"
  from necessary_sound[OF this]
  show "k \<in> {k \<in> table_keys tbl. (name, k) \<in> (references tbl)\<^sup>*}"
    by simp
next
  fix k
  let ?S = "set (necessary tbl [name] [])"
  assume "k \<in> {k \<in> table_keys tbl. (name, k) \<in> (references tbl)\<^sup>*}"
  then have key: "k \<in> table_keys tbl" and path: "(name, k) \<in> (references tbl)\<^sup>*"
    by simp_all
  have c: "covers tbl [name] [] ?S" by (rule necessary_covers)
  from c have start: "name \<in> table_keys tbl \<Longrightarrow> name \<in> ?S"
    unfolding covers_def by simp
  from c have closed:
    "\<And>x y. x \<in> ?S \<Longrightarrow> (x, y) \<in> references tbl \<Longrightarrow> y \<in> table_keys tbl \<Longrightarrow> y \<in> ?S"
    unfolding covers_def by simp
  from path have "k \<in> table_keys tbl \<longrightarrow> k \<in> ?S"
  proof (induction rule: rtrancl_induct)
    case base
    show ?case using start by blast
  next
    case (step y z)
    from step(2) have "y \<in> table_keys tbl" by (rule references_key)
    with step(3) have "y \<in> ?S" by blast
    from closed[OF this step(2)] show ?case by blast
  qed
  with key show "k \<in> ?S" by blast
qed


subsection \<open>Ordered mappings\<close>

text \<open>
  Storing keeps the names unique, adds at most the stored entry, and makes a lookup
  return the value stored last; entries with distinct names are kept as they are.
\<close>

lemma dict_put_new: "k \<notin> set (map fst d) \<Longrightarrow> dict_put k v d = d @ [(k, v)]"
  by (induction d) auto

lemma keys_dict_put:
  "map fst (dict_put k v d) = (if k \<in> set (map fst d) then map fst d else map fst d @ [k])"
  by (induction d) force+

lemma set_dict_put: "set (dict_put k v d) \<subseteq> insert (k, v) (set d)"
  by (induction d) (auto split: if_splits)

lemma distinct_dict_put: "distinct (map fst d) \<Longrightarrow> distinct (map fst (dict_put k v d))"
  by (simp only: keys_dict_put split: if_splits) simp

lemma map_of_dict_put: "map_of (dict_put k v d) = (map_of d)(k \<mapsto> v)"
  by (induction d) auto

lemma foldl_put_keys:
  "set (map fst (foldl (\<lambda>d (k, v). dict_put k v d) d entries)) =
     set (map fst d) \<union> set (map fst entries)"
proof (induction entries arbitrary: d)
  case Nil
  show ?case by simp
next
  case (Cons e entries)
  obtain k v where e: "e = (k, v)" by (cases e)
  have "set (map fst (dict_put k v d)) = insert k (set (map fst d))"
    by (simp only: keys_dict_put split: if_splits) auto
  with Cons[of "dict_put k v d"] show ?case unfolding e by simp
qed

lemma foldl_put_set:
  "set (foldl (\<lambda>d (k, v). dict_put k v d) d entries) \<subseteq> set d \<union> set entries"
proof (induction entries arbitrary: d)
  case Nil
  show ?case by simp
next
  case (Cons e entries)
  obtain k v where e: "e = (k, v)" by (cases e)
  from Cons[of "dict_put k v d"] set_dict_put[of k v d] show ?case
    unfolding e by auto
qed

lemma foldl_put_distinct:
  "distinct (map fst d) \<Longrightarrow>
   distinct (map fst (foldl (\<lambda>d (k, v). dict_put k v d) d entries))"
proof (induction entries arbitrary: d)
  case Nil
  then show ?case by simp
next
  case (Cons e entries)
  obtain k v where e: "e = (k, v)" by (cases e)
  from Cons.prems have "distinct (map fst (dict_put k v d))" by (rule distinct_dict_put)
  from Cons.IH[OF this] show ?case unfolding e by simp
qed

lemma foldl_put_map_of:
  "map_of (foldl (\<lambda>d (k, v). dict_put k v d) d entries) = map_of d ++ map_of (rev entries)"
proof (induction entries arbitrary: d)
  case Nil
  show ?case by simp
next
  case (Cons e entries)
  obtain k v where e: "e = (k, v)" by (cases e)
  have "foldl (\<lambda>d (k, v). dict_put k v d) d (e # entries) =
          foldl (\<lambda>d (k, v). dict_put k v d) (dict_put k v d) entries"
    unfolding e by simp
  then have "map_of (foldl (\<lambda>d (k, v). dict_put k v d) d (e # entries)) =
          map_of (dict_put k v d) ++ map_of (rev entries)"
    by (simp only: Cons.IH)
  also have "\<dots> = (map_of d)(k \<mapsto> v) ++ map_of (rev entries)"
    by (simp only: map_of_dict_put)
  also have "\<dots> = map_of d ++ map_of (rev (e # entries))"
    unfolding e by (rule ext) (simp add: map_add_def split: option.splits)
  finally show ?case .
qed

lemma foldl_put_fresh:
  "distinct (map fst (d @ entries)) \<Longrightarrow>
   foldl (\<lambda>d (k, v). dict_put k v d) d entries = d @ entries"
proof (induction entries arbitrary: d)
  case Nil
  show ?case by simp
next
  case (Cons e entries)
  obtain k v where e: "e = (k, v)" by (cases e)
  from Cons.prems have fresh: "k \<notin> set (map fst d)" unfolding e by auto
  from Cons.prems have "distinct (map fst ((d @ [(k, v)]) @ entries))" unfolding e by auto
  from Cons.IH[OF this] show ?case unfolding e by (simp add: dict_put_new[OF fresh])
qed

lemma keys_dict_of: "set (map fst (dict_of entries)) = set (map fst entries)"
  unfolding dict_of_def using foldl_put_keys[of "[]" entries] by simp

lemma set_dict_of: "set (dict_of entries) \<subseteq> set entries"
  unfolding dict_of_def using foldl_put_set[of "[]" entries] by simp

lemma distinct_dict_of: "distinct (map fst (dict_of entries))"
  unfolding dict_of_def by (rule foldl_put_distinct) simp

lemma map_of_dict_of: "map_of (dict_of entries) = map_of (rev entries)"
  unfolding dict_of_def using foldl_put_map_of[of "[]" entries] by simp

lemma dict_of_distinct: "distinct (map fst entries) \<Longrightarrow> dict_of entries = entries"
  unfolding dict_of_def using foldl_put_fresh[of "[]" entries] by simp

subsection \<open>The keys of the table\<close>

lemma table_keys_dump_all: "table_keys (dump_all tu) = defined_aggregates tu"
proof -
  have "set (map fst (table_entries d)) =
          {name. \<exists>l. d = TaggedAggregate name l \<or> d = AnonymousTypedef name l}" for d
    by (cases d) auto
  then have "set (map fst (concat (map table_entries tu))) = defined_aggregates tu"
    unfolding defined_aggregates_def by (auto simp: map_concat)
  then show ?thesis
    unfolding table_keys_def dump_all_def by (simp only: keys_dict_of)
qed

lemma dump_struct_layout_subset: "set (dump_struct_layout tu target) \<subseteq> set (dump_all tu)"
  unfolding dump_struct_layout_def by (auto split: option.splits)

lemma table_keys_filter:
  "table_keys (filter (\<lambda>(key, l). key \<in> S) tbl) = {k \<in> table_keys tbl. k \<in> S}"
  unfolding table_keys_def by force

lemma distinct_dump_struct_layout: "distinct (map fst (dump_struct_layout tu target))"
proof -
  have "distinct (map fst (dump_all tu))"
    unfolding dump_all_def by (rule distinct_dict_of)
  then show ?thesis
    unfolding dump_struct_layout_def by (auto split: option.splits intro: distinct_map_filter)
qed

lemma dump_all_entry_Struct:
  assumes "(key, l) \<in> set (dump_all tu)"
  shows "\<exists>ts declared. l = Struct ts declared"
proof -
  from assms set_dict_of[of "concat (map table_entries tu)"]
  have "(key, l) \<in> set (concat (map table_entries tu))"
    unfolding dump_all_def by blast
  then obtain d where "(key, l) \<in> set (table_entries d)" by auto
  then show ?thesis by (cases d) auto
qed

lemma distinct_Struct: "distinct (map fst (struct_fields (Struct ts declared)))"
  unfolding Struct_def by (simp add: distinct_dict_of)

text \<open>
  Claim C6. The aggregate record exposes its total size in bits and an ordered mapping
  from field names to offset and type: the names of a record are unique, they are the
  declared names, a lookup gives the offset and type stored last under the name, and
  fields declared under distinct names are kept in declaration order. A layout table
  maps aggregate names to such records: its keys are unique, a lookup gives exactly the
  record stored under the name, and every record of the table has unique field names.
\<close>

theorem Layout_ordered_mapping:
  "total_size_bits (Struct ts declared) = ts
   \<and> distinct (map fst (struct_fields (Struct ts declared)))
   \<and> set (map fst (struct_fields (Struct ts declared))) = set (map fst declared)
   \<and> field_lookup (Struct ts declared) name = map_of (rev declared) name
   \<and> (distinct (map fst declared) \<longrightarrow> struct_fields (Struct ts declared) = declared)
   \<and> distinct (map fst (dump_struct_layout tu target))
   \<and> (table_lookup (dump_struct_layout tu target) aggregate = Some l
        \<longleftrightarrow> (aggregate, l) \<in> set (dump_struct_layout tu target))
   \<and> ((aggregate, l) \<in> set (dump_struct_layout tu target)
        \<longrightarrow> distinct (map fst (struct_fields l)))"
proof -
  have size: "total_size_bits (Struct ts declared) = ts"
    by (simp add: Struct_def)
  have names: "set (map fst (struct_fields (Struct ts declared))) = set (map fst declared)"
    unfolding Struct_def using keys_dict_of[of declared] by simp
  have lookup: "field_lookup (Struct ts declared) name = map_of (rev declared) name"
    unfolding field_lookup_def Struct_def by (simp add: map_of_dict_of)
  have order: "struct_fields (Struct ts declared) = declared"
    if "distinct (map fst declared)"
    unfolding Struct_def using that by (simp add: dict_of_distinct)
  have keys: "distinct (map fst (dump_struct_layout tu target))"
    by (rule distinct_dump_struct_layout)
  then have found: "table_lookup (dump_struct_layout tu target) aggregate = Some l
        \<longleftrightarrow> (aggregate, l) \<in> set (dump_struct_layout tu target)"
    unfolding table_lookup_def by simp
  have records: "distinct (map fst (struct_fields l))"
    if "(aggregate, l) \<in> set (dump_struct_layout tu target)"
  proof -
    from that dump_struct_layout_subset[of tu target]
    have "(aggregate, l) \<in> set (dump_all tu)" by blast
    from dump_all_entry_Struct[OF this] show ?thesis by (auto simp: distinct_Struct)
  qed
  from size distinct_Struct[of ts declared] names lookup order keys found records
  show ?thesis by blast
qed

text \<open>
  The table of \<^verbatim>\<open>struct x { int y; unsigned char z; };\<close> for the target \<^verbatim>\<open>x\<close>: the
  entry \<^verbatim>\<open>x\<close> is found, its fields are in declaration order, and \<^verbatim>\<open>z\<close> lies at bit 32.
\<close>

theorem Layout_ordered_mapping_witness:
  "distinct (map fst [(''y'', 0::nat, Scalar 32 ''int''), (''z'', 32, Scalar 8 ''unsigned char'')])
   \<and> struct_fields (Struct 64 [(''y'', 0, Scalar 32 ''int''), (''z'', 32, Scalar 8 ''unsigned char'')])
       = [(''y'', 0, Scalar 32 ''int''), (''z'', 32, Scalar 8 ''unsigned char'')]
   \<and> field_lookup (Struct 64 [(''y'', 0, Scalar 32 ''int''), (''z'', 32, Scalar 8 ''unsigned char'')]) ''z''
       = Some (32, Scalar 8 ''unsigned char'')
   \<and> table_lookup
        (dump_struct_layout
           [TaggedAggregate ''x''
              \<lparr>total_size_bits = 64,
               struct_fields = [(''y'', 0, Scalar 32 ''int''),
                                (''z'', 32, Scalar 8 ''unsigned char'')]\<rparr>] (Some ''x'')) ''x''
       = Some \<lparr>total_size_bits = 64,
               struct_fields = [(''y'', 0, Scalar 32 ''int''),
                                (''z'', 32, Scalar 8 ''unsigned char'')]\<rparr>
   \<and> distinct (map fst (struct_fields
        \<lparr>total_size_bits = 64,
         struct_fields = [(''y'', 0, Scalar 32 ''int''),
                          (''z'', 32, Scalar 8 ''unsigned char'')]\<rparr>))"
proof -
  let ?declared = "[(''y'', 0::nat, Scalar 32 ''int''), (''z'', 32, Scalar 8 ''unsigned char'')]"
  let ?x = "\<lparr>total_size_bits = 64, struct_fields = ?declared\<rparr>"
  let ?tu = "[TaggedAggregate ''x'' ?x]"
  have names: "distinct (map fst ?declared)" by simp
  have entry: "(''x'', ?x) \<in> set (dump_struct_layout ?tu (Some ''x''))"
    by (simp add: dump_struct_layout_def dump_all_def dict_of_def Struct_def necessary.simps
          layout_references_def)
  from names entry
    Layout_ordered_mapping[of 64 ?declared "''z''" ?tu "Some ''x''" "''x''" ?x]
  show ?thesis by simp
qed

text \<open>
  Claim C8. In the table of a translation unit a tagged struct or union is keyed by
  its tag and an anonymous one introduced by a typedef is keyed by the typedef name.
  Every key of a table, with or without a target, is such a tag or typedef name: the
  name of a typedef alias is a key only if it is also one of those.
\<close>

theorem table_keyed_by_tag_or_typedef:
  "(TaggedAggregate tag l \<in> set tu \<longrightarrow> tag \<in> table_keys (dump_struct_layout tu None))
   \<and> (AnonymousTypedef name l \<in> set tu \<longrightarrow> name \<in> table_keys (dump_struct_layout tu None))
   \<and> (key \<in> table_keys (dump_struct_layout tu target) \<longrightarrow>
        (\<exists>l'. TaggedAggregate key l' \<in> set tu \<or> AnonymousTypedef key l' \<in> set tu))"
proof -
  have all: "table_keys (dump_struct_layout tu None) = defined_aggregates tu"
    by (simp add: dump_struct_layout_def table_keys_dump_all)
  have "table_keys (dump_struct_layout tu target) \<subseteq> table_keys (dump_all tu)"
    using dump_struct_layout_subset[of tu target] unfolding table_keys_def by auto
  then have sub: "table_keys (dump_struct_layout tu target) \<subseteq> defined_aggregates tu"
    by (simp add: table_keys_dump_all)
  show ?thesis using sub unfolding all defined_aggregates_def by blast
qed

text \<open>
  The two examples of the specification: \<^verbatim>\<open>struct s {...}; typedef struct s s_t;\<close>
  gives the key \<^verbatim>\<open>s\<close> and not \<^verbatim>\<open>s_t\<close>, and \<^verbatim>\<open>typedef struct {...} s_t;\<close> gives the key
  \<^verbatim>\<open>s_t\<close> and not \<^verbatim>\<open>s\<close>.
\<close>

theorem table_keyed_by_tag_or_typedef_witness:
  "''s'' \<in> table_keys (dump_struct_layout
       [TaggedAggregate ''s'' \<lparr>total_size_bits = 32, struct_fields = [(''y'', 0, Scalar 32 ''int'')]\<rparr>,
        TypedefAlias ''s_t'' ''s''] None)
   \<and> ''s_t'' \<notin> table_keys (dump_struct_layout
       [TaggedAggregate ''s'' \<lparr>total_size_bits = 32, struct_fields = [(''y'', 0, Scalar 32 ''int'')]\<rparr>,
        TypedefAlias ''s_t'' ''s''] None)
   \<and> ''s_t'' \<in> table_keys (dump_struct_layout
       [AnonymousTypedef ''s_t'' \<lparr>total_size_bits = 32, struct_fields = [(''y'', 0, Scalar 32 ''int'')]\<rparr>] None)
   \<and> ''s'' \<notin> table_keys (dump_struct_layout
       [AnonymousTypedef ''s_t'' \<lparr>total_size_bits = 32, struct_fields = [(''y'', 0, Scalar 32 ''int'')]\<rparr>] None)"
  using table_keyed_by_tag_or_typedef
          [of "''s''" "\<lparr>total_size_bits = 32, struct_fields = [(''y'', 0, Scalar 32 ''int'')]\<rparr>"
              "[TaggedAggregate ''s'' \<lparr>total_size_bits = 32, struct_fields = [(''y'', 0, Scalar 32 ''int'')]\<rparr>,
                TypedefAlias ''s_t'' ''s'']" "''s_t''" "''s_t''" None]
        table_keyed_by_tag_or_typedef
          [of "''s''" "\<lparr>total_size_bits = 32, struct_fields = [(''y'', 0, Scalar 32 ''int'')]\<rparr>"
              "[AnonymousTypedef ''s_t'' \<lparr>total_size_bits = 32, struct_fields = [(''y'', 0, Scalar 32 ''int'')]\<rparr>]"
              "''s_t''" "''s''" None]
  by simp

text \<open>
  Claim C9. With a target name the table holds exactly the defined aggregates that the
  target reaches through named references (the target itself included, when it is
  defined); without one it holds every aggregate the translation unit defines. In both
  cases its entries are entries of the full table.
\<close>

theorem dump_only_necessary:
  "(name \<noteq> [] \<longrightarrow>
      table_keys (dump_struct_layout tu (Some name)) =
        {k \<in> defined_aggregates tu. (name, k) \<in> (references (dump_all tu))\<^sup>*})
   \<and> table_keys (dump_struct_layout tu None) = defined_aggregates tu
   \<and> set (dump_struct_layout tu target) \<subseteq> set (dump_all tu)"
proof -
  have "table_keys (dump_struct_layout tu (Some name)) =
        {k \<in> defined_aggregates tu. (name, k) \<in> (references (dump_all tu))\<^sup>*}"
    if "name \<noteq> []"
  proof -
    from that have "dump_struct_layout tu (Some name) =
        filter (\<lambda>(key, l). key \<in> set (necessary (dump_all tu) [name] [])) (dump_all tu)"
      by (simp add: dump_struct_layout_def)
    then have "table_keys (dump_struct_layout tu (Some name)) =
        {k \<in> table_keys (dump_all tu). k \<in> set (necessary (dump_all tu) [name] [])}"
      by (simp only: table_keys_filter)
    also have "\<dots> = {k \<in> defined_aggregates tu. (name, k) \<in> (references (dump_all tu))\<^sup>*}"
      unfolding necessary_reachable table_keys_dump_all by blast
    finally show ?thesis .
  qed
  moreover have "table_keys (dump_struct_layout tu None) = defined_aggregates tu"
    by (simp add: dump_struct_layout_def table_keys_dump_all)
  ultimately show ?thesis using dump_struct_layout_subset[of tu target] by blast
qed


text \<open>
  Three aggregates: \<^verbatim>\<open>b\<close> embeds \<^verbatim>\<open>a\<close> and points to itself, \<^verbatim>\<open>c\<close> is unrelated. The
  target \<^verbatim>\<open>b\<close> reaches \<^verbatim>\<open>a\<close> and \<^verbatim>\<open>b\<close> and not \<^verbatim>\<open>c\<close>.
\<close>

theorem dump_only_necessary_witness:
  "''b'' \<noteq> []
   \<and> {k \<in> defined_aggregates
          [TaggedAggregate ''a''
             \<lparr>total_size_bits = 32, struct_fields = [(''x'', 0, Scalar 32 ''int'')]\<rparr>,
           TaggedAggregate ''b''
             \<lparr>total_size_bits = 128,
              struct_fields = [(''aa'', 0, StructField 32 ''a''),
                               (''next'', 64, Pointer 64 (StructField 128 ''b''))]\<rparr>,
           TaggedAggregate ''c''
             \<lparr>total_size_bits = 32, struct_fields = [(''y'', 0, Scalar 32 ''int'')]\<rparr>].
        (''b'', k) \<in> (references (dump_all
          [TaggedAggregate ''a''
             \<lparr>total_size_bits = 32, struct_fields = [(''x'', 0, Scalar 32 ''int'')]\<rparr>,
           TaggedAggregate ''b''
             \<lparr>total_size_bits = 128,
              struct_fields = [(''aa'', 0, StructField 32 ''a''),
                               (''next'', 64, Pointer 64 (StructField 128 ''b''))]\<rparr>,
           TaggedAggregate ''c''
             \<lparr>total_size_bits = 32, struct_fields = [(''y'', 0, Scalar 32 ''int'')]\<rparr>]))\<^sup>*}
       = {''a'', ''b''}"
proof -
  let ?tu = "[TaggedAggregate ''a''
             \<lparr>total_size_bits = 32, struct_fields = [(''x'', 0, Scalar 32 ''int'')]\<rparr>,
           TaggedAggregate ''b''
             \<lparr>total_size_bits = 128,
              struct_fields = [(''aa'', 0, StructField 32 ''a''),
                               (''next'', 64, Pointer 64 (StructField 128 ''b''))]\<rparr>,
           TaggedAggregate ''c''
             \<lparr>total_size_bits = 32, struct_fields = [(''y'', 0, Scalar 32 ''int'')]\<rparr>]"
  have name: "''b'' \<noteq> []" by simp
  have run: "table_keys (dump_struct_layout ?tu (Some ''b'')) = {''a'', ''b''}"
    by (simp add: dump_struct_layout_def dump_all_def dict_of_def Struct_def necessary.simps
          layout_references_def table_keys_def insert_commute)
  from name run dump_only_necessary[of "''b''" ?tu None] show ?thesis by simp
qed

end
